theory Spec2Isabelle
  imports Complex_Main
begin

section \<open>JavaScript values used by the price tracker\<close>

text \<open>
  A JavaScript number is a finite double, NaN or one of the two infinities. The finite
  values are kept as rationals; no arithmetic is done on them here, the code only tests
  them with \<^verbatim>\<open>Number.isFinite\<close>.
\<close>

datatype jsnum = Finite rat | NaN | PosInf | NegInf

fun isFinite :: "jsnum \<Rightarrow> bool" where
  "isFinite (Finite x) = True"
| "isFinite NaN = False"
| "isFinite PosInf = False"
| "isFinite NegInf = False"

section \<open>utils/tradingview.ts: parsePrice\<close>

text \<open>
  \<^verbatim>\<open>input.replace(/[^\d.,\-]/g, '')\<close> keeps the characters 0-9, dot, comma and minus;
  \<^verbatim>\<open>.replace(/,/g, '')\<close> then drops the commas.
\<close>

definition keepPriceChars :: "string \<Rightarrow> string" where
  "keepPriceChars s = filter (\<lambda>c. c \<in> set ''0123456789.,-'') s"

definition dropCommas :: "string \<Rightarrow> string" where
  "dropCommas s = filter (\<lambda>c. c \<noteq> CHR '','') s"

text \<open>
  The input has type \<^verbatim>\<open>string | null | undefined\<close>: \<open>None\<close> stands for null and
  undefined. \<^verbatim>\<open>!input\<close> also holds for the empty string. The built-in
  \<^verbatim>\<open>parseFloat\<close> is not code of the repository; it is a parameter of the model, so
  what is proved holds whatever number it returns.
\<close>

definition parsePrice :: "(string \<Rightarrow> jsnum) \<Rightarrow> string option \<Rightarrow> jsnum option" where
  "parsePrice parseFloat input =
     (case input of
        None \<Rightarrow> None
      | Some s \<Rightarrow>
          if s = [] then None
          else
            let cleaned = dropCommas (keepPriceChars s);
                n = parseFloat cleaned
            in if isFinite n then Some n else None)"

section \<open>server.ts: the push-to-pull queue of an output stream\<close>

text \<open>
  \<^verbatim>\<open>new PriceUpdate({ticker, price: String(update.price), timestamp: BigInt(update.ts)})\<close>
  wrapped in a \<^verbatim>\<open>ServerStreamResponse\<close> with case \<^verbatim>\<open>priceUpdate\<close>. The message keeps
  the number and the integer timestamp as they are.
\<close>

record PriceUpdate =
  ticker :: string
  price :: jsnum
  ts :: int
  source :: string

datatype ServerStreamResponse = PriceUpdateMsg string jsnum int

definition toMsg :: "PriceUpdate \<Rightarrow> ServerStreamResponse" where
  "toMsg u = PriceUpdateMsg (ticker u) (price u) (ts u)"

text \<open>
  The queue state of one stream: \<open>pending\<close> is the array \<^verbatim>\<open>pending\<close>,
  \<open>resolveNext\<close> says whether the variable \<^verbatim>\<open>resolveNext\<close> holds the resolver of a
  suspended pull, \<open>streamClosed\<close> is the flag of \<^verbatim>\<open>watchPrices\<close> (\<^verbatim>\<open>streamPrices\<close> has
  no such flag; there it stays \<open>False\<close>). \<open>handed\<close> records, in order, the values with
  which suspended pulls have been resolved.
\<close>

record bridge =
  pending :: "ServerStreamResponse list"
  resolveNext :: bool
  streamClosed :: bool
  handed :: "ServerStreamResponse option list"

definition newBridge :: bridge where
  "newBridge = \<lparr>pending = [], resolveNext = False, streamClosed = False, handed = []\<rparr>"

text \<open>
  The result of calling \<^verbatim>\<open>tryDequeue\<close>: a message at once, \<^verbatim>\<open>null\<close> at once, or a
  promise that stays pending until \<^verbatim>\<open>resolveNext\<close> is called.
\<close>

datatype pull = Item ServerStreamResponse | Null | Suspended

text \<open>\<^verbatim>\<open>tryDequeue\<close> of \<^verbatim>\<open>watchPrices\<close>.\<close>

definition tryDequeue_watch :: "bridge \<Rightarrow> pull \<times> bridge" where
  "tryDequeue_watch b =
     (case pending b of
        msg # rest \<Rightarrow> (Item msg, b\<lparr>pending := rest\<rparr>)
      | [] \<Rightarrow>
          if streamClosed b then (Null, b)
          else (Suspended, b\<lparr>resolveNext := True\<rparr>))"

text \<open>\<^verbatim>\<open>tryDequeue\<close> of \<^verbatim>\<open>streamPrices\<close>.\<close>

definition tryDequeue_stream :: "bridge \<Rightarrow> pull \<times> bridge" where
  "tryDequeue_stream b =
     (case pending b of
        msg # rest \<Rightarrow> (Item msg, b\<lparr>pending := rest\<rparr>)
      | [] \<Rightarrow> (Suspended, b\<lparr>resolveNext := True\<rparr>))"

text \<open>The tail of both \<^verbatim>\<open>onUpdate\<close> functions: hand over or enqueue.\<close>

definition pushMsg :: "ServerStreamResponse \<Rightarrow> bridge \<Rightarrow> bridge" where
  "pushMsg msg b =
     (if resolveNext b
      then b\<lparr>handed := handed b @ [Some msg], resolveNext := False\<rparr>
      else b\<lparr>pending := pending b @ [msg]\<rparr>)"

text \<open>\<^verbatim>\<open>onUpdate\<close> of \<^verbatim>\<open>watchPrices\<close>: every update is pushed.\<close>

definition onUpdate_watch :: "PriceUpdate \<Rightarrow> bridge \<Rightarrow> bridge" where
  "onUpdate_watch u b = pushMsg (toMsg u) b"

text \<open>
  \<^verbatim>\<open>onUpdate\<close> of \<^verbatim>\<open>streamPrices\<close>: an update whose ticker is not in the session's
  \<^verbatim>\<open>subscribed\<close> set is dropped.
\<close>

definition onUpdate_stream :: "string set \<Rightarrow> PriceUpdate \<Rightarrow> bridge \<Rightarrow> bridge" where
  "onUpdate_stream subscribed u b =
     (if ticker u \<notin> subscribed then b else pushMsg (toMsg u) b)"

text \<open>
  The only statement that closes a stream: \<^verbatim>\<open>streamClosed = true\<close> in the
  \<^verbatim>\<open>finally\<close> block of \<^verbatim>\<open>watchPrices\<close>. It does not touch \<^verbatim>\<open>resolveNext\<close>.
\<close>

definition closeStream :: "bridge \<Rightarrow> bridge" where
  "closeStream b = b\<lparr>streamClosed := True\<rparr>"

section \<open>core/TickerSubscriptionManager.ts\<close>

subsection \<open>Symbols\<close>

text \<open>
  \<^verbatim>\<open>tickerRaw.trim().toUpperCase()\<close> on ASCII strings: \<open>trim\<close> strips space, tab,
  line feed, vertical tab, form feed and carriage return from both ends, and
  \<open>toUpperCase\<close> maps a-z to A-Z and leaves every other character alone. On other
  strings the built-ins do more (they strip U+00A0 and map letters outside ASCII). A
  string with characters outside ASCII is the list of the bytes of its UTF-8 form; what
  the built-ins compute on such lists is not defined here, and a statement about every
  input is made for an arbitrary function in the place of \<open>normalize\<close>.
\<close>

definition isSpace :: "char \<Rightarrow> bool" where
  "isSpace c = (c \<in> set [CHR '' '', CHR 0x09, CHR 0x0A, CHR 0x0B, CHR 0x0C, CHR 0x0D])"

definition trim :: "string \<Rightarrow> string" where
  "trim s = rev (dropWhile isSpace (rev (dropWhile isSpace s)))"

definition upperChar :: "char \<Rightarrow> char" where
  "upperChar c =
     (case map_of (zip ''abcdefghijklmnopqrstuvwxyz'' ''ABCDEFGHIJKLMNOPQRSTUVWXYZ'') c of
        None \<Rightarrow> c
      | Some d \<Rightarrow> d)"

definition toUpperCase :: "string \<Rightarrow> string" where
  "toUpperCase s = map upperChar s"

definition normalize :: "string \<Rightarrow> string" where
  "normalize tickerRaw = toUpperCase (trim tickerRaw)"

subsection \<open>The manager's state\<close>

text \<open>
  A handler is a JavaScript function object; only its identity matters to the emitter,
  so it is a number here.
\<close>

type_synonym handler = nat

text \<open>
  \<open>pages\<close> holds the keys of the map \<^verbatim>\<open>pages\<close> in insertion order (what
  \<^verbatim>\<open>getActiveTickers\<close> returns), \<open>starting\<close> and \<open>closing\<close> the keys of the two maps
  of promises in flight, \<open>listeners\<close> the listener array the \<^verbatim>\<open>EventEmitter\<close> keeps
  for each event name, \<open>immediates\<close> the callbacks queued with \<^verbatim>\<open>setImmediate\<close> and not
  yet run. Two fields are logs: \<open>invoked\<close> lists every handler invocation in the order it
  happened, \<open>opens\<close> every page opening that was started.
\<close>

record manager =
  pages :: "string list"
  refCounts :: "string \<rightharpoonup> int"
  starting :: "string set"
  closing :: "string set"
  lastPrices :: "string \<rightharpoonup> PriceUpdate"
  listeners :: "string \<Rightarrow> handler list"
  immediates :: "(handler \<times> PriceUpdate) list"
  invoked :: "(handler \<times> PriceUpdate) list"
  opens :: "string list"

definition newManager :: manager where
  "newManager =
     \<lparr>pages = [], refCounts = Map.empty, starting = {}, closing = {},
      lastPrices = Map.empty, listeners = (\<lambda>key. []), immediates = [],
      invoked = [], opens = []\<rparr>"

text \<open>\<^verbatim>\<open>this.refCounts.get(ticker) ?? 0\<close>\<close>

definition refCount :: "manager \<Rightarrow> string \<Rightarrow> int" where
  "refCount m tk = (case refCounts m tk of None \<Rightarrow> 0 | Some c \<Rightarrow> c)"

text \<open>\<^verbatim>\<open>Map.set\<close> and \<^verbatim>\<open>Map.delete\<close> on the keys of \<^verbatim>\<open>pages\<close>.\<close>

definition keySet :: "string \<Rightarrow> string list \<Rightarrow> string list" where
  "keySet tk ks = (if tk \<in> set ks then ks else ks @ [tk])"

definition keyDelete :: "string \<Rightarrow> string list \<Rightarrow> string list" where
  "keyDelete tk ks = removeAll tk ks"

definition getActiveTickers :: "manager \<Rightarrow> string list" where
  "getActiveTickers m = pages m"

definition topicKey :: "string \<Rightarrow> string" where
  "topicKey tk = ''price-update:'' @ tk"

subsection \<open>The emitter\<close>

text \<open>
  \<^verbatim>\<open>emitter.on\<close> appends to the listener array. \<^verbatim>\<open>emitter.off\<close> removes one entry,
  the most recently added one that is this function. \<^verbatim>\<open>emitter.emit\<close> calls the
  listeners of the event in array order.
\<close>

definition removeLast :: "handler \<Rightarrow> handler list \<Rightarrow> handler list" where
  "removeLast h hs = rev (remove1 h (rev hs))"

definition emitterOn :: "string \<Rightarrow> handler \<Rightarrow> manager \<Rightarrow> manager" where
  "emitterOn key h m = m\<lparr>listeners := (listeners m)(key := listeners m key @ [h])\<rparr>"

definition emitterOff :: "string \<Rightarrow> handler \<Rightarrow> manager \<Rightarrow> manager" where
  "emitterOff key h m = m\<lparr>listeners := (listeners m)(key := removeLast h (listeners m key))\<rparr>"

definition emit :: "string \<Rightarrow> PriceUpdate \<Rightarrow> manager \<Rightarrow> manager" where
  "emit key u m = m\<lparr>invoked := invoked m @ map (\<lambda>h. (h, u)) (listeners m key)\<rparr>"

subsection \<open>onPrice\<close>

text \<open>
  Returns the detach closure, which is \<^verbatim>\<open>() => this.emitter.off(key, handler)\<close> and so
  is determined by the pair of key and handler. Both the key and the cache lookup use
  the argument as it was passed.
\<close>

definition onPrice :: "string \<Rightarrow> handler \<Rightarrow> manager \<Rightarrow> (string \<times> handler) \<times> manager" where
  "onPrice tk h m =
     (let key = topicKey tk;
          m1 = emitterOn key h m;
          m2 = (case lastPrices m1 tk of
                  None \<Rightarrow> m1
                | Some lastPrice \<Rightarrow> m1\<lparr>immediates := immediates m1 @ [(h, lastPrice)]\<rparr>)
      in ((key, h), m2))"

definition detach :: "string \<times> handler \<Rightarrow> manager \<Rightarrow> manager" where
  "detach d m = emitterOff (fst d) (snd d) m"



subsection \<open>The binding pushPriceUpdate\<close>

text \<open>
  The page calls the binding with a payload \<^verbatim>\<open>{price, ts}\<close>; \<open>now\<close> is what
  \<^verbatim>\<open>Date.now()\<close> returns, used when \<^verbatim>\<open>payload.ts\<close> is falsy. Timestamps are
  integers, as \<^verbatim>\<open>Date.now()\<close> in the page produces them. For a finite price the binding
  first logs \<^verbatim>\<open>new Date(update.ts).toISOString()\<close>, which throws a \<^verbatim>\<open>RangeError\<close> when
  the timestamp is outside the range of \<^verbatim>\<open>Date\<close> (more than 8.64e15 ms from the epoch);
  the cache and the listeners are then not reached. The page can call the binding at any
  time, also between a call of \<^verbatim>\<open>onPrice\<close> and the run of the callback that
  \<^verbatim>\<open>onPrice\<close> queued with \<^verbatim>\<open>setImmediate\<close>.
\<close>

datatype error = RangeError

definition validDate :: "int \<Rightarrow> bool" where
  "validDate t = (- 8640000000000000 \<le> t \<and> t \<le> 8640000000000000)"

definition pushPriceUpdate ::
  "string \<Rightarrow> jsnum \<Rightarrow> int \<Rightarrow> int \<Rightarrow> manager \<Rightarrow> error + manager" where
  "pushPriceUpdate tk payloadPrice payloadTs now m =
     (if isFinite payloadPrice then
        let update = \<lparr>ticker = tk, price = payloadPrice,
                      ts = (if payloadTs = 0 then now else payloadTs),
                      source = ''tradingview''\<rparr>
        in if validDate (ts update)
           then Inr (emit (topicKey tk) update
                  (m\<lparr>lastPrices := (lastPrices m)(tk \<mapsto> update)\<rparr>))
           else Inl RangeError
      else Inr m)"

text \<open>The manager after the page has called the binding; a throw leaves it as it was.\<close>

definition bindingCall :: "string \<Rightarrow> jsnum \<Rightarrow> int \<Rightarrow> int \<Rightarrow> manager \<Rightarrow> manager" where
  "bindingCall tk payloadPrice payloadTs now m =
     (case pushPriceUpdate tk payloadPrice payloadTs now m of
        Inl e \<Rightarrow> m
      | Inr m1 \<Rightarrow> m1)"

subsection \<open>subscribe, unsubscribe and the page life cycle\<close>

text \<open>
  An async method runs without interruption up to its first \<^verbatim>\<open>await\<close> on a promise
  that is still pending. \<open>subscribe\<close> and \<open>unsubscribe\<close> below are these uninterrupted
  parts; they return how the call stands afterwards: it has returned to its caller, or
  it waits for the opening or the closing of a page. The opening and the closing end in
  steps of their own, which other calls can precede.
\<close>

datatype call = Returned | AwaitsOpen string | AwaitsClose string

definition ensurePage :: "string \<Rightarrow> manager \<Rightarrow> call \<times> manager" where
  "ensurePage tk m =
     (if tk \<in> set (pages m) then (Returned, m)
      else if tk \<in> starting m then (AwaitsOpen tk, m)
      else (AwaitsOpen tk,
            m\<lparr>opens := opens m @ [tk], starting := insert tk (starting m)\<rparr>))"

text \<open>
  \<^verbatim>\<open>trim\<close> and \<^verbatim>\<open>toUpperCase\<close> are built-ins, not code of the repository. The body
  of \<^verbatim>\<open>subscribe\<close> is given for any function \<open>nz\<close> in the place of
  \<^verbatim>\<open>tickerRaw.trim().toUpperCase()\<close>; \<open>subscribe\<close> itself takes \<open>normalize\<close>, which is
  what the built-ins compute on ASCII strings.
\<close>

definition subscribeWith :: "(string \<Rightarrow> string) \<Rightarrow> string \<Rightarrow> manager \<Rightarrow> call \<times> manager" where
  "subscribeWith nz tickerRaw m =
     (let tk = nz tickerRaw;
          current = refCount m tk;
          m1 = m\<lparr>refCounts := (refCounts m)(tk \<mapsto> current + 1)\<rparr>
      in if current = 0 then ensurePage tk m1 else (Returned, m1))"

definition subscribe :: "string \<Rightarrow> manager \<Rightarrow> call \<times> manager" where
  "subscribe tickerRaw m = subscribeWith normalize tickerRaw m"

text \<open>The opening ends well: \<^verbatim>\<open>this.pages.set(ticker, page)\<close>, then the \<^verbatim>\<open>finally\<close>.\<close>

definition openSucceeded :: "string \<Rightarrow> manager \<Rightarrow> manager" where
  "openSucceeded tk m =
     m\<lparr>pages := keySet tk (pages m), starting := starting m - {tk}\<rparr>"

text \<open>
  The opening throws: the \<^verbatim>\<open>catch\<close> handler sets the count to
  \<^verbatim>\<open>Math.max(0, (this.refCounts.get(ticker) ?? 1) - 1)\<close>, deletes the page entry and
  rethrows; then the \<^verbatim>\<open>finally\<close>. The handler and the \<^verbatim>\<open>finally\<close> callback run in
  microtasks that follow one another; they are one step here.
\<close>

definition openFailed :: "string \<Rightarrow> manager \<Rightarrow> manager" where
  "openFailed tk m =
     m\<lparr>refCounts := (refCounts m)(tk \<mapsto>
          max 0 ((case refCounts m tk of None \<Rightarrow> 1 | Some c \<Rightarrow> c) - 1)),
       pages := keyDelete tk (pages m),
       starting := starting m - {tk}\<rparr>"

text \<open>
  An entry of \<^verbatim>\<open>pages\<close> is a page that is not closed, because the listener for the
  page's \<^verbatim>\<open>close\<close> event deletes the entry. So \<^verbatim>\<open>stopPage\<close>, when it finds an entry
  and no closing in flight, calls \<^verbatim>\<open>page.close()\<close> and waits for it.
\<close>

definition stopPage :: "string \<Rightarrow> manager \<Rightarrow> call \<times> manager" where
  "stopPage tk m =
     (if tk \<notin> set (pages m) then (Returned, m)
      else if tk \<in> closing m then (AwaitsClose tk, m)
      else (AwaitsClose tk, m\<lparr>closing := insert tk (closing m)\<rparr>))"

definition unsubscribeWith :: "(string \<Rightarrow> string) \<Rightarrow> string \<Rightarrow> manager \<Rightarrow> call \<times> manager" where
  "unsubscribeWith nz tickerRaw m =
     (let tk = nz tickerRaw;
          current = refCount m tk
      in if current \<le> 1
         then stopPage tk (m\<lparr>refCounts := (refCounts m)(tk := None)\<rparr>)
         else (Returned, m\<lparr>refCounts := (refCounts m)(tk \<mapsto> current - 1)\<rparr>))"

definition unsubscribe :: "string \<Rightarrow> manager \<Rightarrow> call \<times> manager" where
  "unsubscribe tickerRaw m = unsubscribeWith normalize tickerRaw m"

text \<open>The page has closed: \<^verbatim>\<open>this.pages.delete(ticker)\<close>, then the \<^verbatim>\<open>finally\<close>.\<close>

definition closeCompleted :: "string \<Rightarrow> manager \<Rightarrow> manager" where
  "closeCompleted tk m =
     m\<lparr>pages := keyDelete tk (pages m), closing := closing m - {tk}\<rparr>"

subsection \<open>Events of the manager\<close>





subsection \<open>Calls run one after the other\<close>

text \<open>
  A call is run to completion when the opening or closing it waits for has ended before
  the next call starts. \<open>Acquire ok\<close> is a call of \<^verbatim>\<open>subscribe\<close>, where \<open>ok\<close> says
  whether the page opening succeeds in case the call starts one; \<open>Release\<close> is a call of
  \<^verbatim>\<open>unsubscribe\<close> (closing a page never fails: its errors are swallowed).
\<close>

datatype op = Acquire bool | Release

definition settle :: "bool \<Rightarrow> call \<times> manager \<Rightarrow> manager" where
  "settle ok r =
     (case r of
        (Returned, m) \<Rightarrow> m
      | (AwaitsOpen tk, m) \<Rightarrow> if ok then openSucceeded tk m else openFailed tk m
      | (AwaitsClose tk, m) \<Rightarrow> closeCompleted tk m)"

fun runOp :: "string \<Rightarrow> op \<Rightarrow> manager \<Rightarrow> manager" where
  "runOp raw (Acquire ok) m = settle ok (subscribe raw m)"
| "runOp raw Release m = settle True (unsubscribe raw m)"

definition runOps :: "string \<Rightarrow> op list \<Rightarrow> manager \<Rightarrow> manager" where
  "runOps raw ops m = foldl (\<lambda>m1 x. runOp raw x m1) m ops"

text \<open>
  The count the calls are compared with: a release at 0 leaves 0, an acquire whose
  opening fails leaves the count as it was, every other call adds or subtracts 1.
\<close>

fun countStep :: "int \<Rightarrow> op \<Rightarrow> int" where
  "countStep c (Acquire ok) = (if c = 0 \<and> \<not> ok then 0 else c + 1)"
| "countStep c Release = max 0 (c - 1)"

fun isAcquire :: "op \<Rightarrow> bool" where
  "isAcquire (Acquire ok) = True"
| "isAcquire Release = False"

definition acquires :: "op list \<Rightarrow> int" where
  "acquires ops = int (length (filter isAcquire ops))"

definition releases :: "op list \<Rightarrow> int" where
  "releases ops = int (length (filter (\<lambda>x. \<not> isAcquire x) ops))"

text \<open>
  \<open>neverBelowZero c ops\<close>: starting with \<open>c\<close> references, no release of \<open>ops\<close> comes when
  none is left, that is, no prefix of \<open>ops\<close> has more than \<open>c\<close> releases in excess of
  its acquires.
\<close>

fun neverBelowZero :: "int \<Rightarrow> op list \<Rightarrow> bool" where
  "neverBelowZero c [] = True"
| "neverBelowZero c (Acquire ok # ops) = neverBelowZero (c + 1) ops"
| "neverBelowZero c (Release # ops) = (0 < c \<and> neverBelowZero (c - 1) ops)"

definition opensOk :: "op list \<Rightarrow> bool" where
  "opensOk ops = (Acquire False \<notin> set ops)"

subsection \<open>Pulling several times\<close>

fun pulls :: "(bridge \<Rightarrow> pull \<times> bridge) \<Rightarrow> nat \<Rightarrow> bridge \<Rightarrow> pull list \<times> bridge" where
  "pulls f 0 b = ([], b)"
| "pulls f (Suc n) b =
     (case f b of (r, b1) \<Rightarrow> (case pulls f n b1 of (rs, b2) \<Rightarrow> (r # rs, b2)))"

section \<open>server.ts: watchPrices\<close>

text \<open>
  The part of a \<^verbatim>\<open>watchPrices\<close> stream that decides which symbols it listens to. The
  request is not read anywhere in \<^verbatim>\<open>watchPrices\<close>, so it is no argument here.
  \<open>subscribed\<close> is the set \<^verbatim>\<open>subscribed\<close> in insertion order, \<open>offMap\<close> maps a ticker to
  the detach closure it got from \<^verbatim>\<open>onPrice\<close>, \<open>queue\<close> is the stream's queue. The
  handler passed to \<^verbatim>\<open>onPrice\<close> is always the stream's one function \<^verbatim>\<open>onUpdate\<close>.
\<close>

record watch =
  subscribed :: "string list"
  offMap :: "string \<rightharpoonup> string \<times> handler"
  queue :: bridge

definition newWatch :: watch where
  "newWatch = \<lparr>subscribed = [], offMap = Map.empty, queue = newBridge\<rparr>"

definition subscribeToTicker :: "handler \<Rightarrow> string \<Rightarrow> manager \<times> watch \<Rightarrow> manager \<times> watch" where
  "subscribeToTicker onUpdate tk mw =
     (if tk \<in> set (subscribed (snd mw)) then mw
      else (snd (onPrice tk onUpdate (fst mw)),
            (snd mw)\<lparr>offMap := (offMap (snd mw))(tk \<mapsto> fst (onPrice tk onUpdate (fst mw))),
                     subscribed := subscribed (snd mw) @ [tk]\<rparr>))"

text \<open>The start of the stream: a listener for every active ticker.\<close>

definition watchStart :: "handler \<Rightarrow> manager \<Rightarrow> manager \<times> watch" where
  "watchStart onUpdate m =
     fold (subscribeToTicker onUpdate) (getActiveTickers m) (m, newWatch)"

text \<open>
  The callback of \<^verbatim>\<open>setInterval(..., 100)\<close>. Its first loop attaches to the tickers that
  are new, its second loop detaches from the tickers that are no longer active.
\<close>

definition checkIntervalMs :: nat where
  "checkIntervalMs = 100"







text \<open>
  The stream is attached: its set of tickers has no duplicates, and for each of them
  \<open>onUpdate\<close> is a listener and the detach closure belongs to it.
\<close>

definition watchAttached :: "handler \<Rightarrow> manager \<times> watch \<Rightarrow> bool" where
  "watchAttached onUpdate mw =
     (distinct (subscribed (snd mw)) \<and>
      list_all (\<lambda>tk. onUpdate \<in> set (listeners (fst mw) (topicKey tk)) \<and>
                     offMap (snd mw) tk = Some (topicKey tk, onUpdate))
        (subscribed (snd mw)))"

subsection \<open>The generator\<close>

text \<open>
  \<^verbatim>\<open>watchPrices\<close> is an async generator. Its consumer calls \<^verbatim>\<open>next()\<close> to pull and
  \<^verbatim>\<open>return()\<close> to end the stream; each call is a request, and the requests are served
  in order. The body does not run before the first \<^verbatim>\<open>next()\<close>. While the body waits
  at \<^verbatim>\<open>await tryDequeue()\<close> a new request only joins the queue; the \<^verbatim>\<open>finally\<close> block
  runs when a \<^verbatim>\<open>return()\<close> is served at the \<^verbatim>\<open>yield\<close>, or when the loop is left.
  \<open>results\<close> records what the requests were answered with, \<open>interval\<close> the period of the
  timer set with \<^verbatim>\<open>setInterval\<close> while it is not cleared.
\<close>

datatype request = Next | Return

datatype result = Value ServerStreamResponse | Finished

datatype phase = SuspendedStart | AwaitingDequeue | SuspendedYield | Completed

record generator =
  phase :: phase
  requests :: "request list"
  results :: "result list"
  interval :: "nat option"

definition newGenerator :: generator where
  "newGenerator = \<lparr>phase = SuspendedStart, requests = [], results = [], interval = None\<rparr>"

text \<open>
  The \<^verbatim>\<open>finally\<close> block. The keys of \<^verbatim>\<open>offMap\<close> are the elements of \<^verbatim>\<open>subscribed\<close>: the
  code adds them together and deletes them together.
\<close>

definition watchFinally ::
  "manager \<times> watch \<times> generator \<Rightarrow> manager \<times> watch \<times> generator" where
  "watchFinally s =
     (case s of (m, w, g) \<Rightarrow>
        (fold (\<lambda>tk m1. case offMap w tk of None \<Rightarrow> m1 | Some off \<Rightarrow> detach off m1)
           (subscribed w) m,
         w\<lparr>queue := closeStream (queue w), offMap := Map.empty, subscribed := []\<rparr>,
         g\<lparr>interval := None\<rparr>))"

text \<open>The generator ends: the \<^verbatim>\<open>finally\<close> block, then the request is answered.\<close>

definition finish ::
  "manager \<times> watch \<times> generator \<Rightarrow> manager \<times> watch \<times> generator" where
  "finish s =
     (case watchFinally s of (m, w, g) \<Rightarrow>
        (m, w, g\<lparr>phase := Completed, results := results g @ [Finished]\<rparr>))"

text \<open>
  The loop \<^verbatim>\<open>while (!streamClosed) { next = await tryDequeue(); if (next == null) break;
  yield next }\<close> from its test up to the point where the body stops: at the
  \<^verbatim>\<open>yield\<close>, at the end, or waiting for the promise of \<^verbatim>\<open>tryDequeue\<close>.
\<close>

definition watchLoop ::
  "manager \<times> watch \<times> generator \<Rightarrow> manager \<times> watch \<times> generator" where
  "watchLoop s =
     (case s of (m, w, g) \<Rightarrow>
        if streamClosed (queue w) then finish s
        else (case tryDequeue_watch (queue w) of
                (Item msg, b) \<Rightarrow>
                  (m, w\<lparr>queue := b\<rparr>,
                   g\<lparr>phase := SuspendedYield, results := results g @ [Value msg]\<rparr>)
              | (Null, b) \<Rightarrow> finish (m, w\<lparr>queue := b\<rparr>, g)
              | (Suspended, b) \<Rightarrow> (m, w\<lparr>queue := b\<rparr>, g\<lparr>phase := AwaitingDequeue\<rparr>)))"

text \<open>
  The start of the body: the listeners for the active tickers, the timer, then the loop.
\<close>

definition watchBody ::
  "handler \<Rightarrow> manager \<times> watch \<times> generator \<Rightarrow> manager \<times> watch \<times> generator" where
  "watchBody onUpdate s =
     (case s of (m, w, g) \<Rightarrow>
        watchLoop (fst (watchStart onUpdate m), snd (watchStart onUpdate m),
                   g\<lparr>interval := Some checkIntervalMs\<rparr>))"

text \<open>
  Serving the queued requests. A request that finds the body waiting stays queued with
  the ones behind it.
\<close>

fun serve ::
  "handler \<Rightarrow> request list \<Rightarrow> manager \<times> watch \<times> generator \<Rightarrow>
   manager \<times> watch \<times> generator" where
  "serve onUpdate [] s = s"
| "serve onUpdate (r # rs) s =
     (case phase (snd (snd s)) of
        AwaitingDequeue \<Rightarrow>
          (fst s, fst (snd s),
           (snd (snd s))\<lparr>requests := requests (snd (snd s)) @ r # rs\<rparr>)
      | Completed \<Rightarrow>
          serve onUpdate rs
            (fst s, fst (snd s),
             (snd (snd s))\<lparr>results := results (snd (snd s)) @ [Finished]\<rparr>)
      | SuspendedStart \<Rightarrow>
          (case r of
             Return \<Rightarrow>
               serve onUpdate rs
                 (fst s, fst (snd s),
                  (snd (snd s))\<lparr>phase := Completed,
                                 results := results (snd (snd s)) @ [Finished]\<rparr>)
           | Next \<Rightarrow>
               if phase (snd (snd (watchBody onUpdate s))) = AwaitingDequeue
               then (fst (watchBody onUpdate s), fst (snd (watchBody onUpdate s)),
                     (snd (snd (watchBody onUpdate s)))\<lparr>requests := r # rs\<rparr>)
               else serve onUpdate rs (watchBody onUpdate s))
      | SuspendedYield \<Rightarrow>
          (case r of
             Return \<Rightarrow> serve onUpdate rs (finish s)
           | Next \<Rightarrow>
               if phase (snd (snd (watchLoop s))) = AwaitingDequeue
               then (fst (watchLoop s), fst (snd (watchLoop s)),
                     (snd (snd (watchLoop s)))\<lparr>requests := r # rs\<rparr>)
               else serve onUpdate rs (watchLoop s)))"

text \<open>The consumer calls \<^verbatim>\<open>next()\<close> or \<^verbatim>\<open>return()\<close>.\<close>

definition consumerCalls ::
  "handler \<Rightarrow> request \<Rightarrow> manager \<times> watch \<times> generator \<Rightarrow> manager \<times> watch \<times> generator" where
  "consumerCalls onUpdate r s =
     serve onUpdate (requests (snd (snd s)) @ [r])
       (fst s, fst (snd s), (snd (snd s))\<lparr>requests := []\<rparr>)"

text \<open>
  The emitter calls the stream's \<^verbatim>\<open>onUpdate\<close>. When the body waits for a message, the
  message is handed to it, the body goes on to the \<^verbatim>\<open>yield\<close>, which answers the request
  at the head of the queue, and the requests behind it are served. The body goes on in a
  microtask; this is taken as part of the same step.
\<close>

definition streamOnUpdate ::
  "handler \<Rightarrow> PriceUpdate \<Rightarrow> manager \<times> watch \<times> generator \<Rightarrow> manager \<times> watch \<times> generator" where
  "streamOnUpdate onUpdate u s =
     (if phase (snd (snd s)) = AwaitingDequeue \<and> resolveNext (queue (fst (snd s)))
      then serve onUpdate (tl (requests (snd (snd s))))
             (fst s,
              (fst (snd s))\<lparr>queue := onUpdate_watch u (queue (fst (snd s)))\<rparr>,
              (snd (snd s))\<lparr>phase := SuspendedYield,
                             results := results (snd (snd s)) @ [Value (toMsg u)],
                             requests := []\<rparr>)
      else (fst s,
            (fst (snd s))\<lparr>queue := onUpdate_watch u (queue (fst (snd s)))\<rparr>,
            snd (snd s)))"

section \<open>Auxiliary notions\<close>

subsection \<open>What a handler has been called with\<close>


subsection \<open>Nothing in flight\<close>

text \<open>
  For a symbol, no opening and no closing is in flight, the count is not negative, and
  the page entry exists exactly when the count is positive.
\<close>

definition settledAt :: "manager \<Rightarrow> string \<Rightarrow> bool" where
  "settledAt m s =
     (s \<notin> starting m \<and> s \<notin> closing m \<and> 0 \<le> refCount m s \<and>
      (s \<in> set (pages m)) = (0 < refCount m s))"

section \<open>Lemmas\<close>

subsection \<open>Normalised symbols\<close>

lemma upperChar_idem: "upperChar (upperChar c) = upperChar c"
  by (simp add: upperChar_def split: option.splits)

lemma isSpace_upperChar: "isSpace (upperChar c) = isSpace c"
  by (auto simp add: upperChar_def isSpace_def split: option.splits if_splits)

lemma toUpperCase_idem: "toUpperCase (toUpperCase s) = toUpperCase s"
  by (simp add: toUpperCase_def upperChar_idem)

lemma dropWhile_isSpace_upper:
  "dropWhile isSpace (map upperChar s) = map upperChar (dropWhile isSpace s)"
  by (induction s) (simp_all add: isSpace_upperChar)

lemma trim_toUpperCase: "trim (toUpperCase s) = toUpperCase (trim s)"
  by (simp add: trim_def toUpperCase_def dropWhile_isSpace_upper rev_map)

lemma dropWhile_rev_keeps_head:
  assumes "ys \<noteq> []" "\<not> P (hd ys)"
  shows "\<exists>ws. dropWhile P (rev ys) = ws @ [hd ys]"
proof -
  obtain y ys' where ys: "ys = y # ys'" using assms(1) by (cases ys) auto
  with assms(2) have "\<not> P y" by simp
  then show ?thesis unfolding ys by (simp add: dropWhile_append)
qed

lemma trim_idem: "trim (trim s) = trim s"
proof (cases "dropWhile isSpace s = []")
  case True
  have t: "trim s = []" unfolding trim_def True by simp
  show ?thesis unfolding t by (simp add: trim_def)
next
  case False
  let ?ys = "dropWhile isSpace s"
  have nh: "\<not> isSpace (hd ?ys)" using False by (simp add: hd_dropWhile)
  from dropWhile_rev_keeps_head [of ?ys isSpace, OF False nh]
  obtain ws where ws: "dropWhile isSpace (rev ?ys) = ws @ [hd ?ys]" by blast
  have a: "dropWhile isSpace (rev (dropWhile isSpace (rev ?ys))) = rev (dropWhile isSpace (rev ?ys))"
    using nh by (simp add: ws)
  show ?thesis by (simp add: trim_def a)
qed

lemma normalize_idem: "normalize (normalize s) = normalize s"
  by (simp add: normalize_def trim_toUpperCase toUpperCase_idem trim_idem)

lemma normalize_btcusd: "normalize '' btcusd '' = ''BTCUSD''"
  by (simp add: normalize_def trim_def toUpperCase_def upperChar_def isSpace_def)

lemma normalize_BTCUSD: "normalize ''BTCUSD'' = ''BTCUSD''"
  by (simp add: normalize_def trim_def toUpperCase_def upperChar_def isSpace_def)

subsection \<open>Calls run one after the other keep the registry settled\<close>

lemma settledAt_new: "settledAt newManager s"
  by (simp add: settledAt_def newManager_def refCount_def)

lemma runOp_settledAt:
  assumes "settledAt m (normalize raw)"
  shows "settledAt (runOp raw x m) (normalize raw) \<and>
         refCount (runOp raw x m) (normalize raw) = countStep (refCount m (normalize raw)) x"
proof (cases x)
  case (Acquire ok)
  with assms show ?thesis
    by (auto simp add: settledAt_def subscribe_def subscribeWith_def Let_def ensurePage_def settle_def refCount_def
        openSucceeded_def openFailed_def keySet_def keyDelete_def split: option.splits)
next
  case Release
  with assms show ?thesis
    by (auto simp add: settledAt_def unsubscribe_def unsubscribeWith_def Let_def stopPage_def settle_def refCount_def
        closeCompleted_def keyDelete_def split: option.splits)
qed

lemma runOps_settledAt:
  "settledAt m (normalize raw) \<Longrightarrow>
   settledAt (runOps raw ops m) (normalize raw) \<and>
   refCount (runOps raw ops m) (normalize raw) = foldl countStep (refCount m (normalize raw)) ops"
proof (induction ops arbitrary: m)
  case Nil
  then show ?case by (simp add: runOps_def)
next
  case (Cons x ops)
  from runOp_settledAt [OF Cons.prems, of x]
  have s: "settledAt (runOp raw x m) (normalize raw)"
    and c: "refCount (runOp raw x m) (normalize raw) = countStep (refCount m (normalize raw)) x"
    by simp_all
  from Cons.IH [OF s] c show ?case by (simp add: runOps_def)
qed

lemma foldl_countStep_balanced:
  "0 \<le> c \<Longrightarrow> opensOk ops \<Longrightarrow> neverBelowZero c ops \<Longrightarrow>
   foldl countStep c ops = c + acquires ops - releases ops"
proof (induction ops arbitrary: c)
  case Nil
  then show ?case by (simp add: acquires_def releases_def)
next
  case (Cons x ops)
  show ?case
  proof (cases x)
    case (Acquire ok)
    with Cons.prems have ok: ok by (cases ok) (simp_all add: opensOk_def)
    have "foldl countStep (c + 1) ops = c + 1 + acquires ops - releases ops"
      using Cons.prems Acquire by (intro Cons.IH) (simp_all add: opensOk_def)
    with Acquire ok show ?thesis by (simp add: acquires_def releases_def)
  next
    case Release
    have "foldl countStep (c - 1) ops = c - 1 + acquires ops - releases ops"
      using Cons.prems Release by (intro Cons.IH) (simp_all add: opensOk_def)
    with Release Cons.prems show ?thesis by (simp add: acquires_def releases_def)
  qed
qed

lemma neverBelowZero_prefixes:
  "0 \<le> c \<Longrightarrow> neverBelowZero c ops = (\<forall>n. releases (take n ops) \<le> c + acquires (take n ops))"
proof (induction ops arbitrary: c)
  case Nil
  then show ?case by (simp add: acquires_def releases_def)
next
  case (Cons x ops)
  have split: "\<And>P. (\<forall>n. P (take n (x # ops))) = (P [] \<and> (\<forall>n. P (x # take n ops)))"
  proof -
    fix P :: "op list \<Rightarrow> bool"
    show "(\<forall>n. P (take n (x # ops))) = (P [] \<and> (\<forall>n. P (x # take n ops)))"
    proof
      assume a: "\<forall>n. P (take n (x # ops))"
      have "P (take 0 (x # ops))" using a by blast
      moreover have "\<forall>n. P (take (Suc n) (x # ops))" using a by blast
      ultimately show "P [] \<and> (\<forall>n. P (x # take n ops))" by simp
    next
      assume b: "P [] \<and> (\<forall>n. P (x # take n ops))"
      show "\<forall>n. P (take n (x # ops))"
      proof
        fix n show "P (take n (x # ops))" using b by (cases n) simp_all
      qed
    qed
  qed
  have sp: "(\<forall>n. releases (take n (x # ops)) \<le> c + acquires (take n (x # ops))) =
     (releases [] \<le> c + acquires [] \<and> (\<forall>n. releases (x # take n ops) \<le> c + acquires (x # take n ops)))"
    by (rule split [of "\<lambda>p. releases p \<le> c + acquires p"])
  show ?case
  proof (cases x)
    case (Acquire ok)
    have "neverBelowZero (c + 1) ops = (\<forall>n. releases (take n ops) \<le> c + 1 + acquires (take n ops))"
      using Cons.prems by (intro Cons.IH) simp
    with Acquire Cons.prems show ?thesis
      unfolding sp by (simp add: acquires_def releases_def add.assoc)
  next
    case Release
    show ?thesis
    proof (cases "0 < c")
      case True
      have "neverBelowZero (c - 1) ops = (\<forall>n. releases (take n ops) \<le> c - 1 + acquires (take n ops))"
        using True by (intro Cons.IH) simp
      with Release True show ?thesis
        unfolding sp by (simp add: acquires_def releases_def algebra_simps)
    next
      case False
      have "\<not> (releases (take 1 (x # ops)) \<le> c + acquires (take 1 (x # ops)))"
        using False Release by (simp add: acquires_def releases_def)
      then have "\<not> (\<forall>n. releases (take n (x # ops)) \<le> c + acquires (take n (x # ops)))" by blast
      with Release False show ?thesis by simp
    qed
  qed
qed

subsection \<open>Running the queued immediates\<close>



subsection \<open>Listeners\<close>


subsection \<open>Events and the order of calls\<close>






subsection \<open>Detaching\<close>

lemma removeLast_snoc: "removeLast h (hs @ [h]) = hs"
  by (simp add: removeLast_def)

lemma removeLast_absent: "h \<notin> set hs \<Longrightarrow> removeLast h hs = hs"
  by (simp add: removeLast_def remove1_idem)

lemma removeLast_last_occurrence:
  "h \<notin> set ys \<Longrightarrow> removeLast h (xs @ h # ys) = xs @ ys"
  by (simp add: removeLast_def remove1_append)

lemma count_list_remove1: "count_list (remove1 h hs) h = count_list hs h - 1"
  by (induction hs) auto

lemma count_list_rev': "count_list (rev hs) h = count_list hs h"
  by (induction hs) auto

lemma count_removeLast: "count_list (removeLast h hs) h = count_list hs h - 1"
  by (simp add: removeLast_def count_list_rev' count_list_remove1)

lemma filter_remove1_other: "filter (\<lambda>g. g \<noteq> h) (remove1 h hs) = filter (\<lambda>g. g \<noteq> h) hs"
  by (induction hs) auto

lemma filter_removeLast_other: "filter (\<lambda>g. g \<noteq> h) (removeLast h hs) = filter (\<lambda>g. g \<noteq> h) hs"
  by (simp add: removeLast_def filter_remove1_other rev_filter [symmetric])

lemma removeLast_twice:
  assumes "count_list hs h \<le> 1"
  shows "removeLast h (removeLast h hs) = removeLast h hs"
proof -
  have "count_list (removeLast h hs) h = 0" using assms by (simp add: count_removeLast)
  then have "h \<notin> set (removeLast h hs)" by (simp add: count_list_0_iff)
  then show ?thesis by (rule removeLast_absent)
qed

subsection \<open>watchPrices\<close>

lemma topicKey_inj: "(topicKey a = topicKey b) = (a = b)"
  by (simp add: topicKey_def)

lemma onPrice_fields:
  "pages (snd (onPrice tk h m)) = pages m"
  "invoked (snd (onPrice tk h m)) = invoked m"
  "fst (onPrice tk h m) = (topicKey tk, h)"
  "listeners (snd (onPrice tk h m)) = (listeners m)(topicKey tk := listeners m (topicKey tk) @ [h])"
  by (simp_all add: onPrice_def Let_def emitterOn_def split: option.splits)

lemma subscribeToTicker_keeps:
  assumes "watchAttached h mw"
  shows "watchAttached h (subscribeToTicker h tk mw)
    \<and> set (subscribed (snd (subscribeToTicker h tk mw))) = insert tk (set (subscribed (snd mw)))
    \<and> pages (fst (subscribeToTicker h tk mw)) = pages (fst mw)
    \<and> queue (snd (subscribeToTicker h tk mw)) = queue (snd mw)"
proof (cases "tk \<in> set (subscribed (snd mw))")
  case True
  with assms show ?thesis by (auto simp add: subscribeToTicker_def)
next
  case False
  have "watchAttached h (subscribeToTicker h tk mw)"
    using assms False
    by (auto simp add: subscribeToTicker_def watchAttached_def onPrice_fields list_all_iff topicKey_inj)
  with False show ?thesis by (simp add: subscribeToTicker_def onPrice_fields)
qed

lemma fold_subscribeToTicker:
  "watchAttached h mw \<Longrightarrow>
   watchAttached h (fold (subscribeToTicker h) tks mw)
    \<and> set (subscribed (snd (fold (subscribeToTicker h) tks mw))) = set tks \<union> set (subscribed (snd mw))
    \<and> pages (fst (fold (subscribeToTicker h) tks mw)) = pages (fst mw)
    \<and> queue (snd (fold (subscribeToTicker h) tks mw)) = queue (snd mw)"
proof (induction tks arbitrary: mw)
  case Nil
  then show ?case by simp
next
  case (Cons t tks)
  from subscribeToTicker_keeps [OF Cons.prems, of t]
  have a: "watchAttached h (subscribeToTicker h t mw)"
    and b: "set (subscribed (snd (subscribeToTicker h t mw))) = insert t (set (subscribed (snd mw)))"
    and c: "pages (fst (subscribeToTicker h t mw)) = pages (fst mw)"
    and d: "queue (snd (subscribeToTicker h t mw)) = queue (snd mw)"
    by simp_all
  from Cons.IH [OF a] b c d show ?case by auto
qed










lemma watchAttached_new: "watchAttached h (m, newWatch)"
  by (simp add: watchAttached_def newWatch_def)









lemma watchStart_queue: "queue (snd (watchStart h m)) = newBridge"
  using fold_subscribeToTicker [OF watchAttached_new, of h "getActiveTickers m" m]
  by (simp add: watchStart_def newWatch_def)

lemma first_next_starts_watch:
  "consumerCalls h Next (m, newWatch, newGenerator) =
     (fst (watchStart h m),
      (snd (watchStart h m))\<lparr>queue := newBridge\<lparr>resolveNext := True\<rparr>\<rparr>,
      \<lparr>phase = AwaitingDequeue, requests = [Next], results = [],
        interval = Some checkIntervalMs\<rparr>)"
  by (simp add: consumerCalls_def newGenerator_def watchBody_def watchLoop_def
      watchStart_queue tryDequeue_watch_def newBridge_def)

section \<open>The claims\<close>

text \<open>
  C1. The claim: once nothing is in flight, a symbol has a page entry exactly when its
  count is positive, also after a failed opening during which a second \<open>subscribe\<close>
  raised the count. The code at that input: the first call starts the opening, the second
  call raises the count to 2 and returns, the opening fails and takes 1 off. Nothing is
  in flight any more, the count is 1 and there is no page entry; a further \<open>subscribe\<close>
  finds the count positive and returns without starting an opening.
\<close>

theorem C1_failed_open_keeps_second_reference:
  "refCount (openFailed ''BTCUSD''
      (snd (subscribe ''BTCUSD'' (snd (subscribe ''BTCUSD'' newManager))))) ''BTCUSD'' = 1
   \<and> ''BTCUSD'' \<notin> set (pages (openFailed ''BTCUSD''
      (snd (subscribe ''BTCUSD'' (snd (subscribe ''BTCUSD'' newManager))))))
   \<and> starting (openFailed ''BTCUSD''
      (snd (subscribe ''BTCUSD'' (snd (subscribe ''BTCUSD'' newManager))))) = {}
   \<and> closing (openFailed ''BTCUSD''
      (snd (subscribe ''BTCUSD'' (snd (subscribe ''BTCUSD'' newManager))))) = {}
   \<and> fst (subscribe ''BTCUSD'' (openFailed ''BTCUSD''
      (snd (subscribe ''BTCUSD'' (snd (subscribe ''BTCUSD'' newManager)))))) = Returned
   \<and> opens (snd (subscribe ''BTCUSD'' (openFailed ''BTCUSD''
      (snd (subscribe ''BTCUSD'' (snd (subscribe ''BTCUSD'' newManager))))))) = [''BTCUSD'']"
  by (simp add: subscribe_def subscribeWith_def Let_def ensurePage_def openFailed_def refCount_def
      newManager_def keyDelete_def normalize_BTCUSD)

text \<open>
  C2, as stated, fails: a release that comes first is a no-op, so after a release and
  then an acquire the count is 1, while acquires minus releases clamped at 0 is 0.
\<close>

theorem C2_release_first_counterexample:
  "refCount (runOps ''BTCUSD'' [Release, Acquire True] newManager) ''BTCUSD'' = 1
   \<and> max 0 (acquires [Release, Acquire True] - releases [Release, Acquire True]) = 0"
  by (simp add: runOps_def settle_def subscribe_def subscribeWith_def unsubscribe_def unsubscribeWith_def stopPage_def Let_def
      ensurePage_def openSucceeded_def refCount_def newManager_def keySet_def
      acquires_def releases_def normalize_BTCUSD)

text \<open>
  C2, amended. For every finite sequence of acquire and release calls on one symbol, each
  run to completion on a new manager: the count afterwards is the running count, in
  which a release at 0 and an acquire whose opening fails change nothing; it is never
  negative, neither between the calls nor after the uninterrupted part of a further
  call; and it equals acquires minus releases when every opening succeeds and no prefix
  of the sequence has more releases than acquires.
\<close>

theorem C2_refcount_running_count:
  "refCount (runOps raw ops newManager) (normalize raw) = foldl countStep 0 ops
   \<and> 0 \<le> refCount (runOps raw ops newManager) (normalize raw)
   \<and> 0 \<le> refCount (snd (subscribe raw (runOps raw ops newManager))) (normalize raw)
   \<and> 0 \<le> refCount (snd (unsubscribe raw (runOps raw ops newManager))) (normalize raw)
   \<and> (opensOk ops \<and> neverBelowZero 0 ops \<longrightarrow>
        refCount (runOps raw ops newManager) (normalize raw) = acquires ops - releases ops)"
proof -
  let ?m = "runOps raw ops newManager"
  let ?s = "normalize raw"
  from runOps_settledAt [OF settledAt_new, of raw ops]
  have st: "settledAt ?m ?s" and eq: "refCount ?m ?s = foldl countStep 0 ops"
    by (simp_all add: refCount_def newManager_def)
  from st have nn: "0 \<le> refCount ?m ?s" by (simp add: settledAt_def)
  have sub: "0 \<le> refCount (snd (subscribe raw ?m)) ?s"
    using nn by (simp add: subscribe_def subscribeWith_def Let_def ensurePage_def refCount_def
        split: option.splits)
  have unsub: "0 \<le> refCount (snd (unsubscribe raw ?m)) ?s"
    using nn by (simp add: unsubscribe_def unsubscribeWith_def Let_def stopPage_def refCount_def
        split: option.splits)
  have bal: "opensOk ops \<and> neverBelowZero 0 ops \<longrightarrow> refCount ?m ?s = acquires ops - releases ops"
    using foldl_countStep_balanced [of 0 ops] eq by simp
  from eq nn sub unsub bal show ?thesis by blast
qed

theorem C2_refcount_witness:
  "opensOk [Acquire True, Acquire True, Release]
   \<and> neverBelowZero 0 [Acquire True, Acquire True, Release]
   \<and> refCount (runOps '' btcusd '' [Acquire True, Acquire True, Release] newManager)
        ''BTCUSD'' = 1"
  using C2_refcount_running_count [of "'' btcusd ''" "[Acquire True, Acquire True, Release]"]
  by (simp add: opensOk_def acquires_def releases_def normalize_btcusd)

text \<open>
  C3, as stated, fails: of two calls of \<open>subscribe\<close> on a symbol without an entry, the
  second has returned while the page of the first is still being opened.
\<close>

theorem C3_second_caller_returns_counterexample:
  "fst (subscribe ''BTCUSD'' (snd (subscribe ''BTCUSD'' newManager))) = Returned
   \<and> ''BTCUSD'' \<in> starting (snd (subscribe ''BTCUSD'' (snd (subscribe ''BTCUSD'' newManager))))"
  by (simp add: subscribe_def subscribeWith_def Let_def ensurePage_def refCount_def newManager_def
      normalize_BTCUSD)

text \<open>
  C3, amended. For two calls of \<open>subscribe\<close> on a symbol without an entry, the second made
  while the opening started by the first is in flight: exactly one page opening is
  started, whether it then succeeds or fails; the first caller waits for it; the second
  caller raises the count to 2 and returns without waiting.
\<close>

theorem C3_one_open_first_caller_waits:
  assumes "normalize raw1 = s" and "normalize raw2 = s"
    and "refCount m s = 0" and "s \<notin> set (pages m)" and "s \<notin> starting m"
  shows "fst (subscribe raw1 m) = AwaitsOpen s
     \<and> fst (subscribe raw2 (snd (subscribe raw1 m))) = Returned
     \<and> opens (snd (subscribe raw2 (snd (subscribe raw1 m)))) = opens m @ [s]
     \<and> s \<in> starting (snd (subscribe raw2 (snd (subscribe raw1 m))))
     \<and> refCount (snd (subscribe raw2 (snd (subscribe raw1 m)))) s = 2
     \<and> opens (openSucceeded s (snd (subscribe raw2 (snd (subscribe raw1 m))))) = opens m @ [s]
     \<and> opens (openFailed s (snd (subscribe raw2 (snd (subscribe raw1 m))))) = opens m @ [s]"
  using assms
  by (simp add: subscribe_def subscribeWith_def Let_def ensurePage_def refCount_def openSucceeded_def
      openFailed_def)

theorem C3_one_open_witness:
  "normalize '' btcusd '' = ''BTCUSD'' \<and> normalize ''BTCUSD'' = ''BTCUSD''
   \<and> refCount newManager ''BTCUSD'' = 0
   \<and> ''BTCUSD'' \<notin> set (pages newManager) \<and> ''BTCUSD'' \<notin> starting newManager
   \<and> fst (subscribe '' btcusd '' newManager) = AwaitsOpen ''BTCUSD''
   \<and> fst (subscribe ''BTCUSD'' (snd (subscribe '' btcusd '' newManager))) = Returned
   \<and> opens (snd (subscribe ''BTCUSD'' (snd (subscribe '' btcusd '' newManager)))) = [''BTCUSD'']"
proof -
  have a: "refCount newManager ''BTCUSD'' = 0"
    and b: "''BTCUSD'' \<notin> set (pages newManager)"
    and c: "''BTCUSD'' \<notin> starting newManager"
    by (simp_all add: refCount_def newManager_def)
  have d: "opens newManager = []" by (simp add: newManager_def)
  from C3_one_open_first_caller_waits [OF normalize_btcusd normalize_BTCUSD a b c] a b c d
  show ?thesis by (simp add: normalize_btcusd normalize_BTCUSD)
qed




text \<open>
  C5. The claim: after the close, a pull that is waiting on the empty queue is woken
  with the close sentinel. The code at that input, for a \<open>watchPrices\<close> stream on one
  active symbol: the consumer's \<^verbatim>\<open>next()\<close> starts the body, which waits in
  \<^verbatim>\<open>tryDequeue\<close>; the consumer's \<^verbatim>\<open>return()\<close> joins the queue behind it. The pull is
  still waiting, nothing has been answered, \<open>streamClosed\<close> is not set, the listener and
  the timer are still there. Only when an update is pushed does the pull end, with that
  message and not with the sentinel; then the \<^verbatim>\<open>finally\<close> block runs.
\<close>

theorem C5_return_leaves_pull_waiting:
  "phase (snd (snd (consumerCalls 3 Return (consumerCalls 3 Next
      (openSucceeded ''BTCUSD'' (snd (subscribe ''BTCUSD'' newManager)),
       newWatch, newGenerator))))) = AwaitingDequeue
   \<and> requests (snd (snd (consumerCalls 3 Return (consumerCalls 3 Next
      (openSucceeded ''BTCUSD'' (snd (subscribe ''BTCUSD'' newManager)),
       newWatch, newGenerator))))) = [Next, Return]
   \<and> results (snd (snd (consumerCalls 3 Return (consumerCalls 3 Next
      (openSucceeded ''BTCUSD'' (snd (subscribe ''BTCUSD'' newManager)),
       newWatch, newGenerator))))) = []
   \<and> queue (fst (snd (consumerCalls 3 Return (consumerCalls 3 Next
      (openSucceeded ''BTCUSD'' (snd (subscribe ''BTCUSD'' newManager)),
       newWatch, newGenerator))))) =
      \<lparr>pending = [], resolveNext = True, streamClosed = False, handed = []\<rparr>
   \<and> listeners (fst (consumerCalls 3 Return (consumerCalls 3 Next
      (openSucceeded ''BTCUSD'' (snd (subscribe ''BTCUSD'' newManager)),
       newWatch, newGenerator)))) (topicKey ''BTCUSD'') = [3]
   \<and> interval (snd (snd (consumerCalls 3 Return (consumerCalls 3 Next
      (openSucceeded ''BTCUSD'' (snd (subscribe ''BTCUSD'' newManager)),
       newWatch, newGenerator))))) = Some 100
   \<and> results (snd (snd (streamOnUpdate 3
      \<lparr>ticker = ''BTCUSD'', price = Finite 50000, ts = 1, source = ''tradingview''\<rparr>
      (consumerCalls 3 Return (consumerCalls 3 Next
        (openSucceeded ''BTCUSD'' (snd (subscribe ''BTCUSD'' newManager)),
         newWatch, newGenerator)))))) =
      [Value (PriceUpdateMsg ''BTCUSD'' (Finite 50000) 1), Finished]
   \<and> streamClosed (queue (fst (snd (streamOnUpdate 3
      \<lparr>ticker = ''BTCUSD'', price = Finite 50000, ts = 1, source = ''tradingview''\<rparr>
      (consumerCalls 3 Return (consumerCalls 3 Next
        (openSucceeded ''BTCUSD'' (snd (subscribe ''BTCUSD'' newManager)),
         newWatch, newGenerator)))))))"
proof -
  have m0: "openSucceeded ''BTCUSD'' (snd (subscribe ''BTCUSD'' newManager)) =
      newManager\<lparr>pages := [''BTCUSD''], refCounts := [''BTCUSD'' \<mapsto> 1],
                 opens := [''BTCUSD'']\<rparr>"
    by (simp add: openSucceeded_def subscribe_def subscribeWith_def Let_def ensurePage_def
        refCount_def newManager_def keySet_def normalize_BTCUSD)
  have s1: "consumerCalls 3 Next
      (openSucceeded ''BTCUSD'' (snd (subscribe ''BTCUSD'' newManager)), newWatch, newGenerator) =
      (newManager\<lparr>pages := [''BTCUSD''], refCounts := [''BTCUSD'' \<mapsto> 1],
                  opens := [''BTCUSD''],
                  listeners := (\<lambda>key. [])(topicKey ''BTCUSD'' := [3])\<rparr>,
       \<lparr>subscribed = [''BTCUSD''],
        offMap = [''BTCUSD'' \<mapsto> (topicKey ''BTCUSD'', 3)],
        queue = \<lparr>pending = [], resolveNext = True, streamClosed = False, handed = []\<rparr>\<rparr>,
       \<lparr>phase = AwaitingDequeue, requests = [Next], results = [], interval = Some 100\<rparr>)"
    unfolding m0 first_next_starts_watch
    by (simp add: watchStart_def getActiveTickers_def subscribeToTicker_def newWatch_def
        onPrice_def Let_def emitterOn_def newManager_def newBridge_def checkIntervalMs_def)
  have s2: "consumerCalls 3 Return (consumerCalls 3 Next
      (openSucceeded ''BTCUSD'' (snd (subscribe ''BTCUSD'' newManager)), newWatch, newGenerator)) =
      (newManager\<lparr>pages := [''BTCUSD''], refCounts := [''BTCUSD'' \<mapsto> 1],
                  opens := [''BTCUSD''],
                  listeners := (\<lambda>key. [])(topicKey ''BTCUSD'' := [3])\<rparr>,
       \<lparr>subscribed = [''BTCUSD''],
        offMap = [''BTCUSD'' \<mapsto> (topicKey ''BTCUSD'', 3)],
        queue = \<lparr>pending = [], resolveNext = True, streamClosed = False, handed = []\<rparr>\<rparr>,
       \<lparr>phase = AwaitingDequeue, requests = [Next, Return], results = [],
        interval = Some 100\<rparr>)"
    unfolding s1 by (simp add: consumerCalls_def)
  show ?thesis
    unfolding s2
    by (simp add: streamOnUpdate_def finish_def watchFinally_def closeStream_def
        onUpdate_watch_def pushMsg_def toMsg_def detach_def emitterOff_def removeLast_def)
qed

text \<open>
  C6. Three updates pushed while the queue is empty and no pull is waiting come out of
  the next three pulls in the order pushed, and the queue is empty again. This holds for
  the queue of \<open>watchPrices\<close>, and for the queue of \<open>streamPrices\<close> when the updates are for
  subscribed tickers (others are not pushed at all).
\<close>

theorem C6_three_pushes_three_pulls:
  assumes "pending b = []" and "\<not> resolveNext b"
  shows "fst (pulls tryDequeue_watch 3 (onUpdate_watch uc (onUpdate_watch ub (onUpdate_watch ua b)))) =
       [Item (toMsg ua), Item (toMsg ub), Item (toMsg uc)]
    \<and> pending (snd (pulls tryDequeue_watch 3 (onUpdate_watch uc (onUpdate_watch ub (onUpdate_watch ua b))))) = []
    \<and> (ticker ua \<in> S \<and> ticker ub \<in> S \<and> ticker uc \<in> S \<longrightarrow>
        fst (pulls tryDequeue_stream 3 (onUpdate_stream S uc (onUpdate_stream S ub (onUpdate_stream S ua b)))) =
          [Item (toMsg ua), Item (toMsg ub), Item (toMsg uc)]
        \<and> pending (snd (pulls tryDequeue_stream 3 (onUpdate_stream S uc (onUpdate_stream S ub (onUpdate_stream S ua b))))) = [])"
  using assms
  by (simp add: numeral_3_eq_3 onUpdate_watch_def onUpdate_stream_def pushMsg_def
      tryDequeue_watch_def tryDequeue_stream_def)

theorem C6_three_pushes_witness:
  "pending newBridge = [] \<and> \<not> resolveNext newBridge
   \<and> fst (pulls tryDequeue_stream 3
        (onUpdate_stream {''BTCUSD'', ''ETHUSD''}
           \<lparr>ticker = ''BTCUSD'', price = Finite 50010, ts = 3, source = ''tradingview''\<rparr>
        (onUpdate_stream {''BTCUSD'', ''ETHUSD''}
           \<lparr>ticker = ''ETHUSD'', price = Finite 3000, ts = 2, source = ''tradingview''\<rparr>
        (onUpdate_stream {''BTCUSD'', ''ETHUSD''}
           \<lparr>ticker = ''BTCUSD'', price = Finite 50000, ts = 1, source = ''tradingview''\<rparr>
         newBridge)))) =
      [Item (PriceUpdateMsg ''BTCUSD'' (Finite 50000) 1),
       Item (PriceUpdateMsg ''ETHUSD'' (Finite 3000) 2),
       Item (PriceUpdateMsg ''BTCUSD'' (Finite 50010) 3)]"
proof -
  have a: "pending newBridge = []" and b: "\<not> resolveNext newBridge"
    by (simp_all add: newBridge_def)
  from C6_three_pushes_three_pulls [OF a b,
      where ua = "\<lparr>ticker = ''BTCUSD'', price = Finite 50000, ts = 1, source = ''tradingview''\<rparr>"
        and ub = "\<lparr>ticker = ''ETHUSD'', price = Finite 3000, ts = 2, source = ''tradingview''\<rparr>"
        and uc = "\<lparr>ticker = ''BTCUSD'', price = Finite 50010, ts = 3, source = ''tradingview''\<rparr>"
        and S = "{''BTCUSD'', ''ETHUSD''}"] a b
  show ?thesis by (simp add: toMsg_def)
qed

text \<open>
  C7, as stated, fails for \<open>onPrice\<close>: it builds the topic and looks the cache up with
  the string as passed, so a listener attached under a raw input is not the listener of
  the normalised symbol and is not called with its updates.
\<close>

theorem C7_onPrice_raw_key_counterexample:
  "normalize '' btcusd '' = ''BTCUSD''
   \<and> listeners (snd (onPrice '' btcusd '' 7 newManager)) (topicKey ''BTCUSD'') = []
   \<and> listeners (snd (onPrice ''BTCUSD'' 7 newManager)) (topicKey ''BTCUSD'') = [7]
   \<and> invoked (bindingCall ''BTCUSD'' (Finite 50000) 1 0
        (snd (onPrice '' btcusd '' 7 newManager))) = []
   \<and> invoked (bindingCall ''BTCUSD'' (Finite 50000) 1 0
        (snd (onPrice ''BTCUSD'' 7 newManager))) =
      [(7, \<lparr>ticker = ''BTCUSD'', price = Finite 50000, ts = 1, source = ''tradingview''\<rparr>)]"
  by (simp add: normalize_btcusd onPrice_def Let_def emitterOn_def bindingCall_def
      pushPriceUpdate_def validDate_def emit_def newManager_def topicKey_def)

text \<open>
  C7, amended. Whatever \<^verbatim>\<open>trim\<close> and \<^verbatim>\<open>toUpperCase\<close> compute (the function \<open>nz\<close>), two
  inputs that they take to the same symbol are treated as identical by \<open>subscribe\<close> and
  by \<open>unsubscribe\<close>; a raw input and its normalised form are such inputs, the normalised
  form being taken to itself. \<open>onPrice\<close> and the cache lookup in it key on the string as
  passed: the listener goes under the topic of that string and the replay comes from
  the cache entry of that string.
\<close>

theorem C7_same_symbol_same_behaviour:
  assumes "nz a = nz b"
  shows "subscribeWith nz a m = subscribeWith nz b m
   \<and> unsubscribeWith nz a m = unsubscribeWith nz b m
   \<and> (nz (nz a) = nz a \<longrightarrow>
        subscribeWith nz a m = subscribeWith nz (nz a) m
        \<and> unsubscribeWith nz a m = unsubscribeWith nz (nz a) m)
   \<and> fst (onPrice a h m) = (topicKey a, h)
   \<and> listeners (snd (onPrice a h m)) =
       (listeners m)(topicKey a := listeners m (topicKey a) @ [h])
   \<and> immediates (snd (onPrice a h m)) =
       immediates m @ (case lastPrices m a of None \<Rightarrow> [] | Some u \<Rightarrow> [(h, u)])"
  using assms
  by (simp add: subscribeWith_def unsubscribeWith_def onPrice_def Let_def emitterOn_def
      split: option.splits)

theorem C7_same_symbol_witness:
  "normalize '' btcusd '' = normalize ''BTCUSD''
   \<and> normalize (normalize '' btcusd '') = normalize '' btcusd ''
   \<and> subscribe '' btcusd '' newManager = subscribe ''BTCUSD'' newManager
   \<and> unsubscribe '' btcusd '' newManager = unsubscribe ''BTCUSD'' newManager
   \<and> subscribe '' btcusd '' newManager = subscribe (normalize '' btcusd '') newManager"
proof -
  have e: "normalize '' btcusd '' = normalize ''BTCUSD''"
    by (simp add: normalize_btcusd normalize_BTCUSD)
  have i: "normalize (normalize '' btcusd '') = normalize '' btcusd ''"
    by (rule normalize_idem)
  from C7_same_symbol_same_behaviour
    [where nz = normalize and a = "'' btcusd ''" and b = "''BTCUSD''" and m = newManager
       and h = 0, OF e]
  have r: "subscribeWith normalize '' btcusd '' newManager =
        subscribeWith normalize ''BTCUSD'' newManager
      \<and> unsubscribeWith normalize '' btcusd '' newManager =
        unsubscribeWith normalize ''BTCUSD'' newManager
      \<and> (normalize (normalize '' btcusd '') = normalize '' btcusd '' \<longrightarrow>
          subscribeWith normalize '' btcusd '' newManager =
          subscribeWith normalize (normalize '' btcusd '') newManager
          \<and> unsubscribeWith normalize '' btcusd '' newManager =
          unsubscribeWith normalize (normalize '' btcusd '') newManager)"
    by blast
  from r e i show ?thesis unfolding subscribe_def unsubscribe_def by blast
qed

text \<open>
  C8, as stated, fails when the same callback is attached twice for a symbol. With
  callback 7 attached, then callback 8, then callback 7 again, the detach function of the
  first attach removes the later registration of 7 and leaves the first one in front of
  8. With callback 7 attached twice, a second call of the detach function of the first
  attach is not a no-op: it removes the registration that was left.
\<close>

theorem C8_same_callback_twice_counterexample:
  "listeners (detach (fst (onPrice ''BTCUSD'' 7 newManager))
      (snd (onPrice ''BTCUSD'' 7 (snd (onPrice ''BTCUSD'' 8
        (snd (onPrice ''BTCUSD'' 7 newManager))))))) (topicKey ''BTCUSD'') = [7, 8]
   \<and> listeners (detach (fst (onPrice ''BTCUSD'' 7 newManager))
      (snd (onPrice ''BTCUSD'' 7 (snd (onPrice ''BTCUSD'' 7 newManager)))))
        (topicKey ''BTCUSD'') = [7]
   \<and> listeners (detach (fst (onPrice ''BTCUSD'' 7 newManager))
      (detach (fst (onPrice ''BTCUSD'' 7 newManager))
        (snd (onPrice ''BTCUSD'' 7 (snd (onPrice ''BTCUSD'' 7 newManager))))))
        (topicKey ''BTCUSD'') = []"
  by (simp add: onPrice_def Let_def emitterOn_def detach_def emitterOff_def removeLast_def
      newManager_def)

text \<open>
  C8, amended. The detach function returned by \<open>onPrice\<close> removes one registration of
  its callback under its symbol, the most recently added one: the last place the
  callback has in the listener array goes, the rest of the array stays in its order, and
  without a registration of the callback nothing changes. It touches no other symbol.
  Called right after the attach it removes exactly the registration just made; called
  again it is a no-op when the callback is registered at most once under that symbol at
  the first call.
\<close>

theorem C8_detach_removes_most_recent_registration:
  "fst (onPrice tk h m) = (topicKey tk, h)
   \<and> listeners (detach (fst (onPrice tk h m)) (snd (onPrice tk h m))) = listeners m
   \<and> (\<forall>xs ys. listeners m1 (topicKey tk) = xs @ h # ys \<and> h \<notin> set ys \<longrightarrow>
         listeners (detach (fst (onPrice tk h m)) m1) (topicKey tk) = xs @ ys)
   \<and> (h \<notin> set (listeners m1 (topicKey tk)) \<longrightarrow>
         listeners (detach (fst (onPrice tk h m)) m1) (topicKey tk) =
         listeners m1 (topicKey tk))
   \<and> (\<forall>key. key \<noteq> topicKey tk \<longrightarrow>
         listeners (detach (fst (onPrice tk h m)) m1) key = listeners m1 key)
   \<and> (count_list (listeners m1 (topicKey tk)) h \<le> 1 \<longrightarrow>
        detach (fst (onPrice tk h m)) (detach (fst (onPrice tk h m)) m1) =
        detach (fst (onPrice tk h m)) m1)"
proof -
  have d: "fst (onPrice tk h m) = (topicKey tk, h)" by (simp add: onPrice_def Let_def)
  have a: "listeners (detach (topicKey tk, h) (snd (onPrice tk h m))) = listeners m"
    by (cases "lastPrices m tk")
      (simp_all add: onPrice_def Let_def emitterOn_def detach_def emitterOff_def removeLast_snoc)
  have b: "\<forall>xs ys. listeners m1 (topicKey tk) = xs @ h # ys \<and> h \<notin> set ys \<longrightarrow>
         listeners (detach (topicKey tk, h) m1) (topicKey tk) = xs @ ys"
    by (simp add: detach_def emitterOff_def removeLast_last_occurrence)
  have c: "h \<notin> set (listeners m1 (topicKey tk)) \<longrightarrow>
         listeners (detach (topicKey tk, h) m1) (topicKey tk) = listeners m1 (topicKey tk)"
    by (simp add: detach_def emitterOff_def removeLast_absent)
  have e: "\<forall>key. key \<noteq> topicKey tk \<longrightarrow>
         listeners (detach (topicKey tk, h) m1) key = listeners m1 key"
    by (simp add: detach_def emitterOff_def)
  have f: "count_list (listeners m1 (topicKey tk)) h \<le> 1 \<longrightarrow>
        detach (topicKey tk, h) (detach (topicKey tk, h) m1) = detach (topicKey tk, h) m1"
    by (simp add: detach_def emitterOff_def removeLast_twice)
  from a b c e f show ?thesis unfolding d by blast
qed

theorem C8_detach_witness:
  "listeners (snd (onPrice ''BTCUSD'' 9 (snd (onPrice ''BTCUSD'' 7 (snd (onPrice ''BTCUSD'' 8
      (snd (onPrice ''BTCUSD'' 7 newManager)))))))) (topicKey ''BTCUSD'') = [7, 8] @ 7 # [9]
   \<and> 7 \<notin> set [9::nat]
   \<and> listeners (detach (fst (onPrice ''BTCUSD'' 7 newManager))
       (snd (onPrice ''BTCUSD'' 9 (snd (onPrice ''BTCUSD'' 7 (snd (onPrice ''BTCUSD'' 8
         (snd (onPrice ''BTCUSD'' 7 newManager))))))))) (topicKey ''BTCUSD'') = [7, 8] @ [9]"
proof -
  have l: "listeners (snd (onPrice ''BTCUSD'' 9 (snd (onPrice ''BTCUSD'' 7
      (snd (onPrice ''BTCUSD'' 8 (snd (onPrice ''BTCUSD'' 7 newManager))))))))
        (topicKey ''BTCUSD'') = [7, 8] @ 7 # [9]"
    by (simp add: onPrice_def Let_def emitterOn_def newManager_def)
  have n: "7 \<notin> set [9::nat]" by simp
  from C8_detach_removes_most_recent_registration
    [of "''BTCUSD''" 7 newManager
        "snd (onPrice ''BTCUSD'' 9 (snd (onPrice ''BTCUSD'' 7 (snd (onPrice ''BTCUSD'' 8
           (snd (onPrice ''BTCUSD'' 7 newManager)))))))"]
  have "\<forall>xs ys. listeners (snd (onPrice ''BTCUSD'' 9 (snd (onPrice ''BTCUSD'' 7
      (snd (onPrice ''BTCUSD'' 8 (snd (onPrice ''BTCUSD'' 7 newManager))))))))
        (topicKey ''BTCUSD'') = xs @ 7 # ys \<and> 7 \<notin> set ys \<longrightarrow>
      listeners (detach (fst (onPrice ''BTCUSD'' 7 newManager))
       (snd (onPrice ''BTCUSD'' 9 (snd (onPrice ''BTCUSD'' 7 (snd (onPrice ''BTCUSD'' 8
         (snd (onPrice ''BTCUSD'' 7 newManager))))))))) (topicKey ''BTCUSD'') = xs @ ys"
    by blast
  with l n have "listeners (detach (fst (onPrice ''BTCUSD'' 7 newManager))
       (snd (onPrice ''BTCUSD'' 9 (snd (onPrice ''BTCUSD'' 7 (snd (onPrice ''BTCUSD'' 8
         (snd (onPrice ''BTCUSD'' 7 newManager))))))))) (topicKey ''BTCUSD'') = [7, 8] @ [9]"
    by blast
  with l n show ?thesis by blast
qed



text \<open>
  C10. For every input (a string, null or undefined) \<open>parsePrice\<close> returns null or a
  finite number, never NaN or an infinity; the model has no failing branch because the
  source has no statement that throws on these inputs.
\<close>

theorem C10_parsePrice_finite_or_null:
  "parsePrice parseFloat input = None \<or>
   (\<exists>x. parsePrice parseFloat input = Some (Finite x))"
proof (cases input)
  case None
  then show ?thesis by (simp add: parsePrice_def)
next
  case (Some s)
  show ?thesis
  proof (cases "parseFloat (dropCommas (keepPriceChars s))")
    case (Finite x)
    with Some show ?thesis by (simp add: parsePrice_def Let_def)
  qed (use Some in \<open>simp_all add: parsePrice_def Let_def\<close>)
qed

end
